theory Spec2Isabelle
  imports Main
begin

section \<open>Strings\<close>

text \<open>
  JavaScript strings are modelled as \<^typ>\<open>string\<close>. The library functions the
  program calls on them are written out for the ASCII range: \<open>toLowerCase\<close> maps the
  letters A-Z to a-z and leaves every other character alone, \<open>trim\<close> removes the
  ASCII white space characters at both ends.
\<close>

definition upper_letters :: string where
  "upper_letters = ''ABCDEFGHIJKLMNOPQRSTUVWXYZ''"

definition lower_letters :: string where
  "lower_letters = ''abcdefghijklmnopqrstuvwxyz''"

definition lower_char :: "char \<Rightarrow> char" where
  "lower_char ch =
     (case map_of (zip upper_letters lower_letters) ch of Some d \<Rightarrow> d | None \<Rightarrow> ch)"

definition toLowerCase :: "string \<Rightarrow> string" where
  "toLowerCase str = map lower_char str"

text \<open>\<open>str.startsWith(p)\<close>, \<open>str.includes(p)\<close> and \<open>str.endsWith(p)\<close>.\<close>

primrec startsWith :: "string \<Rightarrow> string \<Rightarrow> bool" where
  "startsWith [] p = (p = [])"
| "startsWith (ch # str) p =
     (case p of [] \<Rightarrow> True | d # p' \<Rightarrow> ch = d \<and> startsWith str p')"

primrec str_includes :: "string \<Rightarrow> string \<Rightarrow> bool" where
  "str_includes [] p = (p = [])"
| "str_includes (ch # str) p = (startsWith (ch # str) p \<or> str_includes str p)"

definition endsWith :: "string \<Rightarrow> string \<Rightarrow> bool" where
  "endsWith str p = startsWith (rev str) (rev p)"

definition is_space :: "char \<Rightarrow> bool" where
  "is_space ch = (ch \<in> set [CHR '' '', CHR 0x09, CHR 0x0A, CHR 0x0B, CHR 0x0C, CHR 0x0D])"

definition trim :: "string \<Rightarrow> string" where
  "trim str = rev (dropWhile is_space (rev (dropWhile is_space str)))"

text \<open>The decimal numeral of a number, as a template literal prints it.\<close>

definition digit :: "nat \<Rightarrow> char" where
  "digit k = ''0123456789'' ! k"

fun dec :: "nat \<Rightarrow> string" where
  "dec k = (if k < 10 then [digit k] else dec (k div 10) @ [digit (k mod 10)])"

section \<open>The index\<close>

text \<open>
  One \<open>SearchIndex\<close> object. The fields are those of the object literal pushed by
  \<open>buildIndex\<close>: \<open>n\<close> (lower-cased name), \<open>c\<close> (CIN), \<open>s\<close> (state), \<open>st\<close> (status),
  \<open>f\<close> (file), \<open>i\<close> (row offset) and \<open>r\<close> (name as written); each is prefixed with
  \<open>e_\<close> here. They carry the types the interface declares: strings and a number.
\<close>

record entry =
  e_n :: string
  e_c :: string
  e_s :: string
  e_st :: string
  e_f :: string
  e_i :: nat
  e_r :: string

subsection \<open>The match phase of \<open>searchCompanies\<close>\<close>

text \<open>
  The condition of the scan: \<open>entry.n.includes(lowerQuery) ||
  (entry.c && entry.c.toLowerCase().includes(lowerQuery))\<close>. An empty string is falsy.
\<close>

definition entry_matches :: "string \<Rightarrow> entry \<Rightarrow> bool" where
  "entry_matches lowerQuery e =
     (str_includes (e_n e) lowerQuery \<or>
      (e_c e \<noteq> [] \<and> str_includes (toLowerCase (e_c e)) lowerQuery))"

text \<open>
  The \<open>for ... of\<close> loop over \<open>GLOBAL_INDEX\<close>. The third argument is
  \<open>matchedEntries\<close>; the \<open>break\<close> is the branch that returns without looking at the
  rest of the index.
\<close>

fun match_loop :: "string \<Rightarrow> entry list \<Rightarrow> entry list \<Rightarrow> entry list" where
  "match_loop lowerQuery [] matched = matched"
| "match_loop lowerQuery (e # es) matched =
     (if entry_matches lowerQuery e
      then (if 50 \<le> length (matched @ [e]) then matched @ [e]
            else match_loop lowerQuery es (matched @ [e]))
      else match_loop lowerQuery es matched)"

definition match_entries :: "string \<Rightarrow> entry list \<Rightarrow> entry list" where
  "match_entries query idx = match_loop (toLowerCase query) idx []"

section \<open>Reading a delimited-text line\<close>

text \<open>
  The character loop of the line parser, the same in both files and in both phases: the
  arguments after the remaining characters are \<open>values\<close>, \<open>inQuote\<close> and
  \<open>currentVal\<close>. A double quote toggles \<open>inQuote\<close> and is dropped; a comma outside
  quotes ends the field.
\<close>

fun split_loop :: "string \<Rightarrow> string list \<Rightarrow> bool \<Rightarrow> string \<Rightarrow> string list" where
  "split_loop [] values inQuote currentVal = values @ [trim currentVal]"
| "split_loop (ch # rest) values inQuote currentVal =
     (if ch = CHR 0x22 then split_loop rest values (\<not> inQuote) currentVal
      else if ch = CHR '','' \<and> \<not> inQuote
        then split_loop rest (values @ [trim currentVal]) inQuote []
      else split_loop rest values inQuote (currentVal @ [ch]))"

text \<open>\<open>v.replace(/^"|"$/g, '')\<close>: a leading and a trailing double quote are removed.\<close>

definition strip_quotes :: "string \<Rightarrow> string" where
  "strip_quotes v =
     (let v1 = (case v of [] \<Rightarrow> [] | ch # rest \<Rightarrow> if ch = CHR 0x22 then rest else v)
      in if v1 \<noteq> [] \<and> last v1 = CHR 0x22 then butlast v1 else v1)"

definition parse_line :: "string \<Rightarrow> string list" where
  "parse_line line = map (\<lambda>v. trim (strip_quotes v)) (split_loop line [] False [])"

subsection \<open>The header patterns\<close>

text \<open>
  The four regular expressions tried on a header cell, all with the flag \<open>i\<close>: the
  cell is lower-cased and the lower-case pattern is searched in it. \<open>re_seq p1 p2\<close> is
  \<open>/p1.*p2/\<close>, where the dot matches anything but a line terminator.
\<close>

definition is_line_terminator :: "char \<Rightarrow> bool" where
  "is_line_terminator ch = (ch \<in> set [CHR 0x0A, CHR 0x0D])"

primrec re_dot_star :: "string \<Rightarrow> string \<Rightarrow> bool" where
  "re_dot_star p [] = (p = [])"
| "re_dot_star p (ch # str) =
     (startsWith (ch # str) p \<or> (\<not> is_line_terminator ch \<and> re_dot_star p str))"

primrec re_seq :: "string \<Rightarrow> string \<Rightarrow> string \<Rightarrow> bool" where
  "re_seq p1 p2 [] = (p1 = [] \<and> p2 = [])"
| "re_seq p1 p2 (ch # str) =
     ((startsWith (ch # str) p1 \<and> re_dot_star p2 (drop (length p1) (ch # str)))
      \<or> re_seq p1 p2 str)"

definition name_header :: "string \<Rightarrow> bool" where
  "name_header h =
     (re_seq ''company'' ''name'' (toLowerCase h) \<or> str_includes (toLowerCase h) ''name'')"

definition cin_header :: "string \<Rightarrow> bool" where
  "cin_header h = str_includes (toLowerCase h) ''cin''"

definition state_header :: "string \<Rightarrow> bool" where
  "state_header h =
     (str_includes (toLowerCase h) ''state''
      \<or> str_includes (toLowerCase h) ''companystatecode'')"

definition status_header :: "string \<Rightarrow> bool" where
  "status_header h =
     (str_includes (toLowerCase h) ''status''
      \<or> str_includes (toLowerCase h) ''companystatus'')"

text \<open>\<open>findIndex\<close>: \<open>None\<close> stands for the result \<open>-1\<close>.\<close>

fun findIndex :: "('a \<Rightarrow> bool) \<Rightarrow> 'a list \<Rightarrow> nat option" where
  "findIndex P [] = None"
| "findIndex P (x # xs) = (if P x then Some 0 else map_option Suc (findIndex P xs))"

record cols =
  nameIdx :: "nat option"
  cinIdx :: "nat option"
  stateIdx :: "nat option"
  statusIdx :: "nat option"

definition header_cols :: "string list \<Rightarrow> cols" where
  "header_cols cleanValues =
     \<lparr>nameIdx = findIndex name_header cleanValues,
      cinIdx = findIndex cin_header cleanValues,
      stateIdx = findIndex state_header cleanValues,
      statusIdx = findIndex status_header cleanValues\<rparr>"

subsection \<open>Values that may be undefined\<close>

text \<open>
  A value of type \<open>string | undefined\<close> is a \<^typ>\<open>string option\<close>. \<open>or_opt a b\<close> is
  \<open>a || b\<close> and \<open>or_str a d\<close> is \<open>a || d\<close> for a string \<open>d\<close>: the empty string and
  \<open>undefined\<close> are falsy. \<open>field_at idx vals\<close> is
  \<open>idx >= 0 ? vals[idx] : ''\<close>, undefined when the index is past the end.
\<close>

definition or_opt :: "string option \<Rightarrow> string option \<Rightarrow> string option" where
  "or_opt a b = (case a of None \<Rightarrow> b | Some x \<Rightarrow> if x = [] then b else Some x)"

definition or_str :: "string option \<Rightarrow> string \<Rightarrow> string" where
  "or_str a d = (case a of None \<Rightarrow> d | Some x \<Rightarrow> if x = [] then d else x)"

definition field_at :: "nat option \<Rightarrow> string list \<Rightarrow> string option" where
  "field_at idx vals =
     (case idx of None \<Rightarrow> Some []
      | Some k \<Rightarrow> if k < length vals then Some (vals ! k) else None)"

section \<open>Building the index\<close>

subsection \<open>The streaming backend\<close>

text \<open>
  The body of \<open>for await (const line of rl)\<close> after the header line. The arguments are
  the file name, the column indices fixed by the header, the counter \<open>index\<close>, the
  lines still to come and \<open>newIndex\<close>.
\<close>

fun csv_rows :: "string \<Rightarrow> cols \<Rightarrow> nat \<Rightarrow> string list \<Rightarrow> entry list \<Rightarrow> entry list" where
  "csv_rows file hdr index [] newIndex = newIndex"
| "csv_rows file hdr index (line # rest) newIndex =
     (let cleanValues = parse_line line;
          name = or_str (field_at (nameIdx hdr) cleanValues) ''Unknown'';
          cin = or_str (field_at (cinIdx hdr) cleanValues) [];
          state = or_str (field_at (stateIdx hdr) cleanValues) [];
          status = or_str (field_at (statusIdx hdr) cleanValues) []
      in csv_rows file hdr (index + 1) rest
           (if name \<noteq> ''Unknown''
            then newIndex @ [\<lparr>e_n = toLowerCase name, e_c = cin, e_s = state, e_st = status,
                              e_f = file, e_i = index, e_r = name\<rparr>]
            else newIndex))"

text \<open>The first line of the stream is the header (\<open>isHeader\<close>).\<close>

definition csv_index :: "string \<Rightarrow> string list \<Rightarrow> entry list \<Rightarrow> entry list" where
  "csv_index file lines newIndex =
     (case lines of [] \<Rightarrow> newIndex
      | header # rest \<Rightarrow> csv_rows file (header_cols (parse_line header)) 0 rest newIndex)"

subsection \<open>The batch backend\<close>

text \<open>
  A row of \<open>sheet_to_json\<close> is an object from column labels to cell values; the cells
  are taken at the type of the fields they end up in, strings.
  \<open>batch_rows\<close> is \<open>data.forEach((row, idx) => ...)\<close>.
\<close>

type_synonym row = "string \<rightharpoonup> string"

fun batch_rows :: "string \<Rightarrow> nat \<Rightarrow> row list \<Rightarrow> entry list \<Rightarrow> entry list" where
  "batch_rows file idx [] newIndex = newIndex"
| "batch_rows file idx (row # rest) newIndex =
     (let name = or_str (or_opt (or_opt (row ''CompanyName'') (row ''Company Name''))
                          (row ''Name'')) ''Unknown'';
          cin = or_str (row ''CIN'') [];
          state = or_str (or_opt (row ''CompanyStateCode'') (row ''State'')) [];
          status = or_str (or_opt (row ''CompanyStatus'') (row ''Status'')) []
      in batch_rows file (idx + 1) rest
           (newIndex @ [\<lparr>e_n = toLowerCase name, e_c = cin, e_s = state, e_st = status,
                          e_f = file, e_i = idx, e_r = name\<rparr>]))"

subsection \<open>The data directory and the libraries\<close>

text \<open>
  The data directory is \<open>None\<close> when it does not exist, and else the list of its
  entries in the order \<open>readdirSync\<close> returns them, each with the content of the file.
  The libraries that read a content are parameters: \<open>readline\<close> gives the lines of a
  stream, \<open>sheet_to_json\<close> the rows of the first sheet of a workbook (\<open>XLSX.read\<close>
  followed by \<open>XLSX.utils.sheet_to_json\<close>), \<open>JSON_parse\<close> and \<open>JSON_stringify\<close> are
  \<open>JSON.parse\<close> and \<open>JSON.stringify\<close> at the type of the index. \<open>None\<close> and
  \<open>Throws\<close> stand for an exception; a parsed \<open>null\<close> is \<open>Value None\<close>. A content
  that cannot be read fails as a whole, before any of its lines or rows is seen.
\<close>

datatype parsed = Throws | Value "entry list option"

record lib =
  readline :: "string \<Rightarrow> string list option"
  sheet_to_json :: "string \<Rightarrow> row list option"
  JSON_parse :: "string \<Rightarrow> parsed"
  JSON_stringify :: "entry list \<Rightarrow> string"

type_synonym disk = "(string \<times> string) list option"

definition snapshot_name :: string where
  "snapshot_name = ''search-index.json''"

definition file_content :: "disk \<Rightarrow> string \<Rightarrow> string option" where
  "file_content d file = (case d of None \<Rightarrow> None | Some files \<Rightarrow> map_of files file)"

text \<open>\<open>file.match(/\.(csv|xlsx|xls|json)$/)\<close>\<close>

definition has_ext :: "string \<Rightarrow> bool" where
  "has_ext file =
     (endsWith file ''.csv'' \<or> endsWith file ''.xlsx'' \<or> endsWith file ''.xls''
      \<or> endsWith file ''.json'')"

subsection \<open>The process state\<close>

text \<open>
  \<open>GLOBAL_INDEX\<close> and \<open>IS_INDEXING\<close> are the two module variables. \<open>rate\<close> is the store
  of the rate limiter, whose code is not part of these files. \<open>trace\<close> records, in order,
  the accesses the process makes to the limiter and to the file system.
\<close>

datatype event =
  RateCheck string | SnapshotExists | SnapshotRead | DirExists | DirList | FileOpen string

record 'r state =
  GLOBAL_INDEX :: "entry list option"
  IS_INDEXING :: bool
  rate :: 'r
  trace :: "event list"

fun is_rate_check :: "event \<Rightarrow> bool" where
  "is_rate_check (RateCheck ip) = True"
| "is_rate_check ev = False"

text \<open>Truthiness of \<open>GLOBAL_INDEX\<close>: \<open>null\<close> is falsy, every array is truthy.\<close>

fun is_set :: "'a option \<Rightarrow> bool" where
  "is_set None = False"
| "is_set (Some v) = True"

subsection \<open>\<open>buildIndex\<close> of the application\<close>

text \<open>
  The loop over the directory entries inside the \<open>try\<close> block. An exception leaves the
  loop for the \<open>catch\<close>, after which \<open>newIndex\<close> is stored as it stands.
\<close>

fun app_scan ::
  "lib \<Rightarrow> (string \<times> string) list \<Rightarrow> entry list \<Rightarrow> event list \<Rightarrow> entry list \<times> event list"
where
  "app_scan L [] newIndex tr = (newIndex, tr)"
| "app_scan L ((file, content) # rest) newIndex tr =
     (if \<not> has_ext file then app_scan L rest newIndex tr
      else if endsWith file ''.csv'' then
        (case readline L content of
           None \<Rightarrow> (newIndex, tr @ [FileOpen file])
         | Some lines \<Rightarrow>
             app_scan L rest (csv_index file lines newIndex) (tr @ [FileOpen file]))
      else
        (case sheet_to_json L content of
           None \<Rightarrow> (newIndex, tr @ [FileOpen file])
         | Some data \<Rightarrow>
             app_scan L rest (batch_rows file 0 data newIndex) (tr @ [FileOpen file])))"

text \<open>
  The fallback build. When the directory is missing, \<open>GLOBAL_INDEX\<close> becomes the empty
  array and the function returns with \<open>IS_INDEXING\<close> still set.
\<close>

definition rescan :: "lib \<Rightarrow> disk \<Rightarrow> 'r state \<Rightarrow> 'r state" where
  "rescan L d st =
     (case d of
        None \<Rightarrow> st\<lparr>GLOBAL_INDEX := Some [], trace := trace st @ [DirExists]\<rparr>
      | Some files \<Rightarrow>
          (case app_scan L files [] (trace st @ [DirExists, DirList]) of
             (newIndex, tr) \<Rightarrow>
               st\<lparr>GLOBAL_INDEX := Some newIndex, IS_INDEXING := False, trace := tr\<rparr>))"

definition buildIndex :: "lib \<Rightarrow> disk \<Rightarrow> 'r state \<Rightarrow> 'r state" where
  "buildIndex L d st =
     (if is_set (GLOBAL_INDEX st) \<or> IS_INDEXING st then st
      else
        (let st1 = st\<lparr>IS_INDEXING := True, trace := trace st @ [SnapshotExists]\<rparr> in
         case file_content d snapshot_name of
           None \<Rightarrow> rescan L d st1
         | Some content \<Rightarrow>
             (case JSON_parse L content of
                Value v \<Rightarrow>
                  st1\<lparr>GLOBAL_INDEX := v, IS_INDEXING := False,
                      trace := trace st1 @ [SnapshotRead]\<rparr>
              | Throws \<Rightarrow> rescan L d (st1\<lparr>trace := trace st1 @ [SnapshotRead]\<rparr>))))"

subsection \<open>\<open>buildIndex\<close> of the script\<close>

text \<open>
  The script skips the snapshot file, and an exception ends the process with exit code 1
  before anything is written (\<open>None\<close>).
\<close>

fun script_scan :: "lib \<Rightarrow> (string \<times> string) list \<Rightarrow> entry list \<Rightarrow> entry list option" where
  "script_scan L [] newIndex = Some newIndex"
| "script_scan L ((file, content) # rest) newIndex =
     (if \<not> has_ext file then script_scan L rest newIndex
      else if file = ''search-index.json'' then script_scan L rest newIndex
      else if endsWith file ''.csv'' then
        (case readline L content of
           None \<Rightarrow> None
         | Some lines \<Rightarrow> script_scan L rest (csv_index file lines newIndex))
      else
        (case sheet_to_json L content of
           None \<Rightarrow> None
         | Some data \<Rightarrow> script_scan L rest (batch_rows file 0 data newIndex)))"

datatype outcome = DirMissing | Exit1 | Written "entry list"

text \<open>\<open>writeFileSync\<close> replaces the content of the snapshot file or adds the file.\<close>

definition write_file :: "string \<Rightarrow> string \<Rightarrow> (string \<times> string) list \<Rightarrow> (string \<times> string) list" where
  "write_file file content files =
     (if file \<in> fst ` set files
      then map (\<lambda>(k, v). if k = file then (k, content) else (k, v)) files
      else files @ [(file, content)])"

definition script_buildIndex :: "lib \<Rightarrow> disk \<Rightarrow> outcome \<times> disk" where
  "script_buildIndex L d =
     (case d of
        None \<Rightarrow> (DirMissing, d)
      | Some files \<Rightarrow>
          (case script_scan L files [] of
             None \<Rightarrow> (Exit1, d)
           | Some newIndex \<Rightarrow>
               (Written newIndex,
                Some (write_file snapshot_name (JSON_stringify L newIndex) files))))"


section \<open>Searching\<close>

subsection \<open>Grouping the matches by file\<close>

text \<open>
  \<open>matchesByFile\<close> is a \<open>Map\<close>, which iterates in the order its keys were first
  inserted: a list of pairs, a new file appended at the end.
\<close>

fun group_matches :: "entry list \<Rightarrow> (string \<times> nat list) list \<Rightarrow> (string \<times> nat list) list" where
  "group_matches [] m = m"
| "group_matches (e # es) m =
     group_matches es
       (map (\<lambda>(k, v). if k = e_f e then (k, v @ [e_i e]) else (k, v))
          (if e_f e \<in> fst ` set m then m else m @ [(e_f e, [])]))"

subsection \<open>Result rows\<close>

text \<open>
  A \<open>Company\<close> object maps a key to a value that may be \<open>undefined\<close>. The object literal
  sets \<open>id\<close>, \<open>name\<close>, \<open>state\<close>, \<open>cin\<close> and \<open>status\<close> and then spreads the row over
  them, so a column of the row with one of these labels replaces the field.
\<close>

type_synonym company = "string \<rightharpoonup> string option"

definition company_of :: "string \<Rightarrow> nat \<Rightarrow> row \<Rightarrow> company" where
  "company_of file idx row =
     [''id'' \<mapsto> Some (file @ ''-'' @ dec idx),
      ''name'' \<mapsto> Some (or_str (or_opt (or_opt (row ''CompanyName'') (row ''Company Name''))
                                  (row ''Name'')) ''Unknown''),
      ''state'' \<mapsto> Some (or_str (or_opt (row ''CompanyStateCode'') (row ''State'')) []),
      ''cin'' \<mapsto> row ''CIN'',
      ''status'' \<mapsto> or_opt (row ''CompanyStatus'') (row ''Status'')]
     ++ (\<lambda>k. map_option Some (row k))"

text \<open>\<open>header.forEach((h, i) => { row[h] = cleanValues[i] || ''; })\<close>\<close>

definition csv_row :: "string list \<Rightarrow> string list \<Rightarrow> row" where
  "csv_row header cleanValues =
     fold (\<lambda>(h, k) row. row(h \<mapsto> or_str (field_at (Some k) cleanValues) []))
       (zip header [0..<length header]) Map.empty"

subsection \<open>Detail resolution, streaming backend\<close>

text \<open>
  The second pass over a delimited-text file: \<open>currentIndex\<close> counts the lines after the
  header, and a line whose count is among the wanted offsets gives a result row.
\<close>

fun csv_detail_rows ::
  "string \<Rightarrow> nat list \<Rightarrow> string list \<Rightarrow> nat \<Rightarrow> string list \<Rightarrow> company list \<Rightarrow> company list"
where
  "csv_detail_rows file indices header currentIndex [] res = res"
| "csv_detail_rows file indices header currentIndex (line # rest) res =
     csv_detail_rows file indices header (currentIndex + 1) rest
       (if currentIndex \<in> set indices
        then res @ [company_of file currentIndex (csv_row header (parse_line line))]
        else res)"

definition csv_detail :: "string \<Rightarrow> nat list \<Rightarrow> string list \<Rightarrow> company list \<Rightarrow> company list" where
  "csv_detail file indices lines res =
     (case lines of [] \<Rightarrow> res
      | header # rest \<Rightarrow> csv_detail_rows file indices (parse_line header) 0 rest res)"

subsection \<open>Detail resolution, batch backend\<close>

text \<open>
  \<open>indices.forEach(idx => { const row = data[idx]; if (row) results.push(...) })\<close>:
  \<open>data[idx]\<close> is \<open>undefined\<close> past the end of the array, and a row object is truthy.
\<close>

fun batch_detail :: "string \<Rightarrow> row list \<Rightarrow> nat list \<Rightarrow> company list \<Rightarrow> company list" where
  "batch_detail file data [] res = res"
| "batch_detail file data (idx # rest) res =
     (if idx < length data
      then batch_detail file data rest (res @ [company_of file idx (data ! idx)])
      else batch_detail file data rest res)"

subsection \<open>The loop over the files\<close>

text \<open>
  Each file is read inside its own \<open>try\<close>: a file that cannot be read contributes
  nothing and the loop goes on.
\<close>

fun resolve ::
  "lib \<Rightarrow> disk \<Rightarrow> (string \<times> nat list) list \<Rightarrow> company list \<Rightarrow> event list
   \<Rightarrow> company list \<times> event list"
where
  "resolve L d [] res tr = (res, tr)"
| "resolve L d ((file, indices) # rest) res tr =
     (if endsWith file ''.csv'' then
        (case Option.bind (file_content d file) (readline L) of
           None \<Rightarrow> resolve L d rest res (tr @ [FileOpen file])
         | Some lines \<Rightarrow>
             resolve L d rest (csv_detail file indices lines res) (tr @ [FileOpen file]))
      else
        (case Option.bind (file_content d file) (sheet_to_json L) of
           None \<Rightarrow> resolve L d rest res (tr @ [FileOpen file])
         | Some data \<Rightarrow>
             resolve L d rest (batch_detail file data indices res) (tr @ [FileOpen file])))"

subsection \<open>\<open>searchCompanies\<close>\<close>

text \<open>
  A call comes with the query, the answer of \<open>isUserLoggedIn\<close> and the header
  \<open>x-forwarded-for\<close>. \<open>checkRateLimit\<close> is a parameter: given the address and the store
  of the limiter it answers \<open>allowed\<close> and \<open>remaining\<close> and returns the store as it
  leaves it. The fields of the returned object that are absent are \<open>None\<close>.
\<close>

record request =
  query :: string
  isLoggedIn :: bool
  forwarded_for :: "string option"

record limit =
  allowed :: bool
  limit_remaining :: int

record response =
  results :: "company list"
  error :: "string option"
  remaining :: "int option"
  isPremium :: "bool option"

definition limit_message :: string where
  "limit_message = ''Free search limit exceeded (10/day). Please login for unlimited access.''"

text \<open>
  The \<open>try\<close> block of \<open>searchCompanies\<close>, entered with the value of \<open>remaining\<close>.
  Its \<open>catch\<close> rethrows what reaches it as \<open>Search failed\<close>. \<open>buildIndex\<close> catches
  its own exceptions and each file is resolved inside a \<open>try\<close> of its own, so with
  records and rows of the declared types nothing reaches that \<open>catch\<close>, and the
  function has no failing branch.
\<close>

definition search_index ::
  "lib \<Rightarrow> disk \<Rightarrow> request \<Rightarrow> int \<Rightarrow> 'r state \<Rightarrow> response \<times> 'r state" where
  "search_index L d rq rem st =
     (let st1 = (if \<not> is_set (GLOBAL_INDEX st) then buildIndex L d st else st) in
      case GLOBAL_INDEX st1 of
        None \<Rightarrow> (\<lparr>results = [], error = None, remaining = None, isPremium = None\<rparr>, st1)
      | Some idx \<Rightarrow>
          (case resolve L d (group_matches (match_entries (query rq) idx) []) [] (trace st1) of
             (res, tr) \<Rightarrow>
               (\<lparr>results = res, error = None, remaining = Some rem,
                 isPremium = Some (isLoggedIn rq)\<rparr>,
                st1\<lparr>trace := tr\<rparr>)))"

definition client_address :: "request \<Rightarrow> string" where
  "client_address rq = or_str (forwarded_for rq) ''127.0.0.1''"

definition searchCompanies ::
  "lib \<Rightarrow> (string \<Rightarrow> 'r \<Rightarrow> limit \<times> 'r) \<Rightarrow> disk \<Rightarrow> request \<Rightarrow> 'r state \<Rightarrow> response \<times> 'r state"
where
  "searchCompanies L checkRateLimit d rq st =
     (if query rq = [] \<or> length (query rq) < 2
      then (\<lparr>results = [], error = None, remaining = None, isPremium = None\<rparr>, st)
      else if isLoggedIn rq then search_index L d rq (- 1) st
      else
        (case checkRateLimit (client_address rq) (rate st) of
           (lim, store) \<Rightarrow>
             (let st1 = st\<lparr>rate := store,
                          trace := trace st @ [RateCheck (client_address rq)]\<rparr> in
              if \<not> allowed lim
              then (\<lparr>results = [], error = Some limit_message, remaining = Some 0,
                     isPremium = Some False\<rparr>, st1)
              else search_index L d rq (limit_remaining lim) st1)))"

section \<open>A small installation\<close>

text \<open>
  Concrete inputs on which the functions above are run: a data directory with one
  delimited-text file and one workbook, libraries that read them, and a limiter.
\<close>

subsection \<open>Libraries\<close>

fun split_lines :: "string \<Rightarrow> string \<Rightarrow> string list" where
  "split_lines [] cur = [cur]"
| "split_lines (ch # rest) cur =
     (if ch = CHR 0x0A then cur # split_lines rest [] else split_lines rest (cur @ [ch]))"

definition unlines :: "string list \<Rightarrow> string" where
  "unlines ls = concat (map (\<lambda>l. l @ [CHR 0x0A]) (butlast ls)) @ last ls"

definition json_string :: "string \<Rightarrow> string" where
  "json_string str = [CHR 0x22] @ str @ [CHR 0x22]"

definition json_entry :: "entry \<Rightarrow> string" where
  "json_entry e =
     ''{'' @ json_string ''n'' @ '':'' @ json_string (e_n e) @ '',''
     @ json_string ''c'' @ '':'' @ json_string (e_c e) @ '',''
     @ json_string ''s'' @ '':'' @ json_string (e_s e) @ '',''
     @ json_string ''st'' @ '':'' @ json_string (e_st e) @ '',''
     @ json_string ''f'' @ '':'' @ json_string (e_f e) @ '',''
     @ json_string ''i'' @ '':'' @ dec (e_i e) @ '',''
     @ json_string ''r'' @ '':'' @ json_string (e_r e) @ ''}''"

fun json_entries :: "entry list \<Rightarrow> string" where
  "json_entries [] = []"
| "json_entries [e] = json_entry e"
| "json_entries (e # es) = json_entry e @ '','' @ json_entries es"

definition json_array :: "entry list \<Rightarrow> string" where
  "json_array idx = ''['' @ json_entries idx @ '']''"

definition companies_header :: string where
  "companies_header = ''Name,CIN,State,Status''"

definition companies_rows :: "string list" where
  "companies_rows =
     [''Acme Corp,CIN123,MH,Active'',
      '',CIN000,KA,Active'',
      ''Beta LLC,CIN456,DL,Inactive'']"

definition companies_csv :: string where
  "companies_csv = unlines (companies_header # companies_rows)"

definition companies_index :: "entry list" where
  "companies_index =
     [\<lparr>e_n = ''acme corp'', e_c = ''CIN123'', e_s = ''MH'', e_st = ''Active'',
       e_f = ''companies.csv'', e_i = 0, e_r = ''Acme Corp''\<rparr>,
      \<lparr>e_n = ''beta llc'', e_c = ''CIN456'', e_s = ''DL'', e_st = ''Inactive'',
       e_f = ''companies.csv'', e_i = 2, e_r = ''Beta LLC''\<rparr>]"

text \<open>A sheet with one row whose name cell is empty: the row has no name column.\<close>

definition nameless_row :: row where
  "nameless_row = [''CIN'' \<mapsto> ''U999'', ''State'' \<mapsto> ''GJ'']"

definition register_xlsx :: string where
  "register_xlsx = ''PK: register''"

text \<open>A snapshot that is not JSON, and the single row a workbook reader makes of it.\<close>

definition broken_snapshot :: string where
  "broken_snapshot = unlines [''Name'', ''Acme Corp'']"

definition broken_snapshot_row :: row where
  "broken_snapshot_row = [''Name'' \<mapsto> ''Acme Corp'']"

definition example_readline :: "string \<Rightarrow> string list option" where
  "example_readline txt = Some (split_lines txt [])"

definition example_sheet :: "string \<Rightarrow> row list option" where
  "example_sheet txt =
     (if txt = register_xlsx then Some [nameless_row]
      else if txt = broken_snapshot then Some [broken_snapshot_row]
      else None)"

definition example_parse :: "string \<Rightarrow> parsed" where
  "example_parse txt =
     (if txt = ''null'' then Value None
      else if txt = json_array companies_index then Value (Some companies_index)
      else Throws)"

definition example_lib :: lib where
  "example_lib =
     \<lparr>readline = example_readline, sheet_to_json = example_sheet,
      JSON_parse = example_parse, JSON_stringify = json_array\<rparr>"

subsection \<open>Directories\<close>

definition example_files :: "(string \<times> string) list" where
  "example_files = [(''README.md'', ''data''), (''companies.csv'', companies_csv)]"

definition register_files :: "(string \<times> string) list" where
  "register_files = [(''register.xlsx'', register_xlsx)]"

definition broken_files :: "(string \<times> string) list" where
  "broken_files = [(''search-index.json'', broken_snapshot)]"

subsection \<open>A limiter and process states\<close>

text \<open>
  Modelled from the spec: \<open>checkRateLimit\<close>, whose code is not in these files. The store
  counts the queries of each address in the current window; the tenth query is the last
  one allowed, and an allowed query reports how many are left after it.
\<close>

definition counting_limiter :: "string \<Rightarrow> (string \<Rightarrow> nat) \<Rightarrow> limit \<times> (string \<Rightarrow> nat)" where
  "counting_limiter ip store =
     (if store ip < 10
      then (\<lparr>allowed = True, limit_remaining = 9 - int (store ip)\<rparr>, store(ip := store ip + 1))
      else (\<lparr>allowed = False, limit_remaining = 0\<rparr>, store))"

definition no_queries :: "string \<Rightarrow> nat" where
  "no_queries ip = 0"

definition ten_queries :: "string \<Rightarrow> nat" where
  "ten_queries ip = 10"

definition fresh :: "'r \<Rightarrow> 'r state" where
  "fresh store = \<lparr>GLOBAL_INDEX = None, IS_INDEXING = False, rate = store, trace = []\<rparr>"

text \<open>The state another call sees while a build is in flight.\<close>

definition building :: "'r \<Rightarrow> 'r state" where
  "building store = \<lparr>GLOBAL_INDEX = None, IS_INDEXING = True, rate = store, trace = []\<rparr>"

definition premium_request :: request where
  "premium_request = \<lparr>query = ''acme'', isLoggedIn = True, forwarded_for = None\<rparr>"

definition anonymous_request :: request where
  "anonymous_request = \<lparr>query = ''acme'', isLoggedIn = False, forwarded_for = Some ''10.0.0.7''\<rparr>"

definition short_request :: request where
  "short_request = \<lparr>query = ''a'', isLoggedIn = False, forwarded_for = Some ''10.0.0.7''\<rparr>"

text \<open>Sixty records that all match the query \<open>acme\<close>, told apart by their offsets.\<close>

definition sixty_matches :: "entry list" where
  "sixty_matches =
     map (\<lambda>k. \<lparr>e_n = ''acme corp'', e_c = ''CIN123'', e_s = ''MH'', e_st = ''Active'',
                e_f = ''companies.csv'', e_i = k, e_r = ''Acme Corp''\<rparr>) [0..<60]"

section \<open>The match phase\<close>

lemma match_loop_take:
  "length matched < 50 \<Longrightarrow>
   match_loop q es matched = take 50 (matched @ filter (entry_matches q) es)"
proof (induction es arbitrary: matched)
  case Nil
  then show ?case by simp
next
  case (Cons e es)
  show ?case
  proof (cases "entry_matches q e")
    case False
    with Cons show ?thesis by simp
  next
    case True
    show ?thesis
    proof (cases "50 \<le> length (matched @ [e])")
      case full: True
      with Cons.prems have "length (matched @ [e]) = 50" by simp
      with True full show ?thesis by simp
    next
      case room: False
      then have "length (matched @ [e]) < 50" by simp
      from Cons.IH [OF this] True room show ?thesis by simp
    qed
  qed
qed

lemma match_entries_take:
  "match_entries q idx = take 50 (filter (entry_matches (toLowerCase q)) idx)"
  by (simp add: match_entries_def match_loop_take)

text \<open>
  C1. When the index holds at least 51 records matching the query, the match phase
  returns exactly 50 records, and they are the first 50 matching records in index
  order. The scan stops there: whatever follows the part of the index that holds the
  first 50 matches has no influence on the result.
\<close>

theorem match_phase_first_50:
  assumes "51 \<le> length (filter (entry_matches (toLowerCase q)) idx)"
  shows "length (match_entries q idx) = 50
    \<and> match_entries q idx = take 50 (filter (entry_matches (toLowerCase q)) idx)
    \<and> (\<forall>pre post post'.
          idx = pre @ post \<and> length (filter (entry_matches (toLowerCase q)) pre) = 50
          \<longrightarrow> match_entries q (pre @ post') = filter (entry_matches (toLowerCase q)) pre)"
  using assms by (auto simp: match_entries_take)

text \<open>Sixty matching records: the first fifty are returned.\<close>

lemma sixty_all_match: "filter (entry_matches (toLowerCase ''ACME'')) sixty_matches = sixty_matches"
  by code_simp

theorem match_phase_first_50_witness:
  "51 \<le> length (filter (entry_matches (toLowerCase ''ACME'')) sixty_matches)
   \<and> length (match_entries ''ACME'' sixty_matches) = 50
   \<and> match_entries ''ACME'' sixty_matches = take 50 sixty_matches"
proof -
  have len: "length sixty_matches = 60"
    by (simp add: sixty_matches_def)
  have many: "51 \<le> length (filter (entry_matches (toLowerCase ''ACME'')) sixty_matches)"
    by (simp add: sixty_all_match len)
  from match_phase_first_50 [OF many] many show ?thesis
    by (simp add: sixty_all_match)
qed

section \<open>Calls that do no search work\<close>

text \<open>
  C2. A query shorter than two characters, the empty one included, is answered with
  an empty result list and nothing else, and the process state is returned as it was:
  the store of the limiter, the index, the build flag and the trace of accesses are
  untouched, whatever the libraries, the limiter and the directory are.
\<close>

theorem short_query_no_effect:
  assumes "length (query rq) < 2"
  shows "searchCompanies L checkRateLimit d rq st =
           (\<lparr>results = [], error = None, remaining = None, isPremium = None\<rparr>, st)"
  using assms by (simp add: searchCompanies_def)

theorem short_query_no_effect_witness:
  "length (query short_request) < 2
   \<and> searchCompanies example_lib counting_limiter (Some example_files) short_request
        (fresh no_queries)
      = (\<lparr>results = [], error = None, remaining = None, isPremium = None\<rparr>, fresh no_queries)"
proof -
  have short: "length (query short_request) < 2"
    by (simp add: short_request_def)
  from short short_query_no_effect [OF short] show ?thesis by simp
qed

text \<open>
  C3. A caller who is not logged in and whom the limiter does not allow gets an
  ordinary answer: no results, \<open>remaining\<close> 0, \<open>isPremium\<close> false and a non-empty
  message. The only access the call makes is the limiter's check: the index and the
  build flag are as before and no file event is added to the trace.
\<close>

theorem denied_before_search:
  assumes "\<not> isLoggedIn rq"
    and "2 \<le> length (query rq)"
    and "checkRateLimit (client_address rq) (rate st) = (lim, store)"
    and "\<not> allowed lim"
  shows "searchCompanies L checkRateLimit d rq st =
           (\<lparr>results = [], error = Some limit_message, remaining = Some 0,
             isPremium = Some False\<rparr>,
            st\<lparr>rate := store, trace := trace st @ [RateCheck (client_address rq)]\<rparr>)
         \<and> limit_message \<noteq> []"
proof -
  from assms(2) have "query rq \<noteq> []" "\<not> length (query rq) < 2" by auto
  with assms show ?thesis
    by (simp add: searchCompanies_def limit_message_def)
qed

theorem denied_before_search_witness:
  "\<not> isLoggedIn anonymous_request
   \<and> 2 \<le> length (query anonymous_request)
   \<and> \<not> allowed (fst (counting_limiter (client_address anonymous_request) ten_queries))
   \<and> fst (searchCompanies example_lib counting_limiter (Some example_files) anonymous_request
        (fresh ten_queries))
      = \<lparr>results = [], error = Some limit_message, remaining = Some 0, isPremium = Some False\<rparr>
   \<and> GLOBAL_INDEX (snd (searchCompanies example_lib counting_limiter (Some example_files)
        anonymous_request (fresh ten_queries))) = None
   \<and> trace (snd (searchCompanies example_lib counting_limiter (Some example_files)
        anonymous_request (fresh ten_queries))) = [RateCheck ''10.0.0.7'']"
proof -
  have a: "\<not> isLoggedIn anonymous_request"
    by (simp add: anonymous_request_def)
  have b: "2 \<le> length (query anonymous_request)"
    by (simp add: anonymous_request_def)
  have c: "counting_limiter (client_address anonymous_request) (rate (fresh ten_queries))
             = (\<lparr>allowed = False, limit_remaining = 0\<rparr>, ten_queries)"
    by (simp add: counting_limiter_def fresh_def ten_queries_def)
  have e: "\<not> allowed \<lparr>allowed = False, limit_remaining = 0\<rparr>"
    by simp
  have f: "client_address anonymous_request = ''10.0.0.7''"
    by (simp add: client_address_def anonymous_request_def or_str_def)
  from denied_before_search [where checkRateLimit = counting_limiter
      and rq = anonymous_request and st = "fresh ten_queries" and L = example_lib
      and d = "Some example_files", OF a b c e] a b c f
  show ?thesis
    by (simp add: fresh_def)
qed


section \<open>Building once\<close>

lemma is_set_iff: "is_set x = (x \<noteq> None)"
  by (cases x) simp_all

lemma example_build:
  "GLOBAL_INDEX (buildIndex example_lib (Some example_files) (fresh no_queries))
     = Some companies_index"
  by code_simp

text \<open>
  C7. A call of \<open>buildIndex\<close> that finds the index set, or the flag \<open>IS_INDEXING\<close>
  set, returns the state as it is: nothing is scanned, loaded or changed. Hence, of two
  calls in sequence, the second is a no-op as soon as the first has left the index set,
  whatever the directory holds by then.
\<close>

theorem ensure_ready_once:
  "(is_set (GLOBAL_INDEX st) \<or> IS_INDEXING st \<longrightarrow> buildIndex L d st = st)
   \<and> (is_set (GLOBAL_INDEX (buildIndex L d st))
        \<longrightarrow> buildIndex L' d' (buildIndex L d st) = buildIndex L d st)"
  by (simp add: buildIndex_def)

theorem ensure_ready_once_witness:
  "is_set (GLOBAL_INDEX (buildIndex example_lib (Some example_files) (fresh no_queries)))
   \<and> buildIndex example_lib (Some broken_files)
        (buildIndex example_lib (Some example_files) (fresh no_queries))
      = buildIndex example_lib (Some example_files) (fresh no_queries)
   \<and> IS_INDEXING (building no_queries)
   \<and> buildIndex example_lib (Some example_files) (building no_queries) = building no_queries"
proof -
  have built: "is_set (GLOBAL_INDEX (buildIndex example_lib (Some example_files) (fresh no_queries)))"
    by (simp add: example_build)
  have flag: "IS_INDEXING (building no_queries)"
    by (simp add: building_def)
  from ensure_ready_once [of "fresh no_queries" example_lib "Some example_files" example_lib
      "Some broken_files"] built
  have second: "buildIndex example_lib (Some broken_files)
        (buildIndex example_lib (Some example_files) (fresh no_queries))
      = buildIndex example_lib (Some example_files) (fresh no_queries)"
    by simp
  from ensure_ready_once [of "building no_queries" example_lib "Some example_files"] flag
  have "buildIndex example_lib (Some example_files) (building no_queries) = building no_queries"
    by simp
  with built flag second show ?thesis by simp
qed

text \<open>
  The first call leaves the index set in every case but one: a snapshot file whose
  content parses to \<open>null\<close>.
\<close>

lemma build_sets_index:
  assumes "\<not> is_set (GLOBAL_INDEX st)" and "\<not> IS_INDEXING st"
    and "\<not> is_set (GLOBAL_INDEX (buildIndex L d st))"
  shows "\<exists>content. file_content d snapshot_name = Some content
           \<and> JSON_parse L content = Value None"
  using assms
  by (auto simp: buildIndex_def rescan_def Let_def is_set_iff
      split: option.splits parsed.splits prod.splits)

section \<open>Detail resolution of the batch backend\<close>

lemma batch_detail_map:
  "batch_detail file data indices res =
     res @ map (\<lambda>k. company_of file k (data ! k)) (filter (\<lambda>k. k < length data) indices)"
  by (induction indices arbitrary: res) auto

text \<open>
  C10. An offset that has no row in the parsed rows of a file of the batch backend is
  skipped: resolving the offsets with it gives the same result rows as resolving them
  without it, one row for each of the other offsets that is in range, in their order.
  The step of the loop over the files is the same with and without the offset, so
  nothing is raised on its account.
\<close>

theorem missing_offset_skipped:
  assumes "length data \<le> idx"
  shows "batch_detail file data (before @ idx # after) res
           = batch_detail file data (before @ after) res
    \<and> batch_detail file data (before @ idx # after) res
           = res @ map (\<lambda>k. company_of file k (data ! k))
                     (filter (\<lambda>k. k < length data) (before @ after))
    \<and> (\<not> endsWith file ''.csv''
         \<and> Option.bind (file_content d file) (sheet_to_json L) = Some data \<longrightarrow>
          resolve L d ((file, before @ idx # after) # rest) res tr
            = resolve L d ((file, before @ after) # rest) res tr)"
proof -
  from assms have skip: "batch_detail file data (before @ idx # after) res
      = batch_detail file data (before @ after) res" for res
    by (simp add: batch_detail_map)
  from assms have "batch_detail file data (before @ idx # after) res
      = res @ map (\<lambda>k. company_of file k (data ! k))
                (filter (\<lambda>k. k < length data) (before @ after))"
    by (simp add: batch_detail_map)
  with skip show ?thesis by simp
qed

theorem missing_offset_skipped_witness:
  "length [nameless_row] \<le> 5
   \<and> batch_detail ''register.xlsx'' [nameless_row] ([0] @ 5 # [0]) []
       = batch_detail ''register.xlsx'' [nameless_row] ([0] @ [0]) []
   \<and> length (batch_detail ''register.xlsx'' [nameless_row] ([0] @ 5 # [0]) []) = 2"
proof -
  have far: "length [nameless_row] \<le> 5" by simp
  from missing_offset_skipped [OF far, of "''register.xlsx''" "[0]" "[0]" "[]"] far
  show ?thesis by simp
qed

section \<open>What the builders index\<close>

text \<open>
  The streaming backend appends a record of the file at hand only, and never one whose
  name is \<open>Unknown\<close>; the batch backend appends records of the file at hand.
\<close>

lemma csv_rows_sources:
  "set (csv_rows fname hdr k rows acc)
     \<subseteq> set acc \<union> {e. e_f e = fname \<and> e_r e \<noteq> ''Unknown''}"
proof (induction rows arbitrary: k acc)
  case Nil
  show ?case by simp
next
  case (Cons line rows)
  let ?name = "or_str (field_at (nameIdx hdr) (parse_line line)) ''Unknown''"
  show ?case
  proof (cases "?name = ''Unknown''")
    case True
    with Cons.IH [of "k + 1" acc] show ?thesis by (simp add: Let_def)
  next
    case False
    let ?e = "\<lparr>e_n = toLowerCase ?name,
               e_c = or_str (field_at (cinIdx hdr) (parse_line line)) [],
               e_s = or_str (field_at (stateIdx hdr) (parse_line line)) [],
               e_st = or_str (field_at (statusIdx hdr) (parse_line line)) [],
               e_f = fname, e_i = k, e_r = ?name\<rparr>"
    from False have "csv_rows fname hdr k (line # rows) acc
        = csv_rows fname hdr (k + 1) rows (acc @ [?e])"
      by (simp add: Let_def)
    with Cons.IH [of "k + 1" "acc @ [?e]"] False show ?thesis by auto
  qed
qed

lemma csv_index_sources:
  "e \<in> set (csv_index fname lines acc) \<Longrightarrow>
   e \<in> set acc \<or> (e_f e = fname \<and> e_r e \<noteq> ''Unknown'')"
  using csv_rows_sources [of fname _ 0 _ acc]
  by (auto simp: csv_index_def split: list.splits)

lemma batch_rows_sources_set:
  "set (batch_rows fname k rows acc) \<subseteq> set acc \<union> {e. e_f e = fname}"
proof (induction rows arbitrary: k acc)
  case Nil
  show ?case by simp
next
  case (Cons row rows)
  obtain e where step: "batch_rows fname k (row # rows) acc
      = batch_rows fname (k + 1) rows (acc @ [e])" and src: "e_f e = fname"
    by (simp add: Let_def)
  from Cons.IH [of "k + 1" "acc @ [e]"] step src show ?case by auto
qed

lemma batch_rows_sources:
  "e \<in> set (batch_rows fname k rows acc) \<Longrightarrow> e \<in> set acc \<or> e_f e = fname"
  using batch_rows_sources_set [of fname k rows acc] by auto

text \<open>
  The script indexes only files with one of the four extensions, and never the snapshot
  file; the application indexes only files with one of the four extensions.
\<close>

lemma script_scan_sources:
  "script_scan L files acc = Some idx \<Longrightarrow> e \<in> set idx \<Longrightarrow>
   e \<in> set acc \<or> (has_ext (e_f e) \<and> e_f e \<noteq> ''search-index.json'' \<and> e_f e \<in> fst ` set files)"
proof (induction files arbitrary: acc)
  case Nil
  then show ?case by simp
next
  case (Cons p files)
  obtain fname content where p: "p = (fname, content)" by (cases p)
  show ?case
  proof (cases "has_ext fname \<and> fname \<noteq> ''search-index.json''")
    case False
    with Cons.prems p have "script_scan L files acc = Some idx"
      by (auto split: if_splits)
    from Cons.IH [OF this Cons.prems(2)] show ?thesis by auto
  next
    case True
    show ?thesis
    proof (cases "endsWith fname ''.csv''")
      case csv: True
      with True Cons.prems p obtain lines where
        "script_scan L files (csv_index fname lines acc) = Some idx"
        by (auto split: option.splits)
      from Cons.IH [OF this Cons.prems(2)] True p show ?thesis
        by (auto dest: csv_index_sources)
    next
      case sheet: False
      with True Cons.prems p obtain data where
        "script_scan L files (batch_rows fname 0 data acc) = Some idx"
        by (auto split: option.splits)
      from Cons.IH [OF this Cons.prems(2)] True p show ?thesis
        by (auto dest: batch_rows_sources)
    qed
  qed
qed

lemma app_scan_sources:
  "e \<in> set (fst (app_scan L files acc tr)) \<Longrightarrow>
   e \<in> set acc \<or> (has_ext (e_f e) \<and> e_f e \<in> fst ` set files)"
proof (induction files arbitrary: acc tr)
  case Nil
  then show ?case by simp
next
  case (Cons p files)
  obtain fname content where p: "p = (fname, content)" by (cases p)
  show ?case
  proof (cases "has_ext fname")
    case False
    with Cons.prems p have "e \<in> set (fst (app_scan L files acc tr))" by simp
    from Cons.IH [OF this] show ?thesis by auto
  next
    case True
    show ?thesis
    proof (cases "endsWith fname ''.csv''")
      case csv: True
      show ?thesis
      proof (cases "readline L content")
        case None
        with True csv Cons.prems p show ?thesis by simp
      next
        case (Some lines)
        with True csv Cons.prems p
        have "e \<in> set (fst (app_scan L files (csv_index fname lines acc) (tr @ [FileOpen fname])))"
          by simp
        from Cons.IH [OF this] True p show ?thesis
          by (auto dest: csv_index_sources)
      qed
    next
      case sheet: False
      show ?thesis
      proof (cases "sheet_to_json L content")
        case None
        with True sheet Cons.prems p show ?thesis by simp
      next
        case (Some data)
        with True sheet Cons.prems p
        have "e \<in> set (fst (app_scan L files (batch_rows fname 0 data acc) (tr @ [FileOpen fname])))"
          by simp
        from Cons.IH [OF this] True p show ?thesis
          by (auto dest: batch_rows_sources)
      qed
    qed
  qed
qed

text \<open>
  C4. The claim is that no builder appends a record for a row whose name is \<open>Unknown\<close>.
  The batch backend has no such test: for a workbook whose only row has no name column,
  the loop, the build of the application and the build of the script all produce a
  record with the name \<open>Unknown\<close>.
\<close>

theorem batch_backend_keeps_unknown:
  "batch_rows ''register.xlsx'' 0 [nameless_row] []
     = [\<lparr>e_n = ''unknown'', e_c = ''U999'', e_s = ''GJ'', e_st = [],
         e_f = ''register.xlsx'', e_i = 0, e_r = ''Unknown''\<rparr>]
   \<and> GLOBAL_INDEX (buildIndex example_lib (Some register_files) (fresh no_queries))
     = Some [\<lparr>e_n = ''unknown'', e_c = ''U999'', e_s = ''GJ'', e_st = [],
              e_f = ''register.xlsx'', e_i = 0, e_r = ''Unknown''\<rparr>]
   \<and> fst (script_buildIndex example_lib (Some register_files))
     = Written [\<lparr>e_n = ''unknown'', e_c = ''U999'', e_s = ''GJ'', e_st = [],
                 e_f = ''register.xlsx'', e_i = 0, e_r = ''Unknown''\<rparr>]"
  by code_simp

text \<open>
  C5. The claim is that no record is produced from the snapshot file. The build of the
  application does not skip it: when the snapshot does not parse, the fallback scan
  reads \<open>search-index.json\<close> as a workbook and indexes its rows, where the script
  on the same directory indexes nothing.
\<close>

theorem app_indexes_snapshot_file:
  "GLOBAL_INDEX (buildIndex example_lib (Some broken_files) (fresh no_queries))
     = Some [\<lparr>e_n = ''acme corp'', e_c = [], e_s = [], e_st = [],
              e_f = ''search-index.json'', e_i = 0, e_r = ''Acme Corp''\<rparr>]
   \<and> fst (script_buildIndex example_lib (Some broken_files)) = Written []"
  by code_simp


section \<open>Logged-in callers\<close>

text \<open>
  Neither the build nor the detail resolution touches the limiter: its store is as
  before and no check is added to the trace.
\<close>

lemma app_scan_rate_checks:
  "filter is_rate_check (snd (app_scan L files acc tr)) = filter is_rate_check tr"
  by (induction L files acc tr rule: app_scan.induct) (auto split: option.splits)

lemma resolve_rate_checks:
  "filter is_rate_check (snd (resolve L d groups res tr)) = filter is_rate_check tr"
  by (induction L d groups res tr rule: resolve.induct) (auto split: option.splits)

lemma rescan_limiter:
  "rate (rescan L d st) = rate st
   \<and> filter is_rate_check (trace (rescan L d st)) = filter is_rate_check (trace st)"
proof (cases d)
  case None
  then show ?thesis by (simp add: rescan_def)
next
  case (Some files)
  obtain newIndex tr where scan: "app_scan L files [] (trace st @ [DirExists, DirList]) = (newIndex, tr)"
    by (cases "app_scan L files [] (trace st @ [DirExists, DirList])")
  from app_scan_rate_checks [of L files "[]" "trace st @ [DirExists, DirList]"] scan
  have "filter is_rate_check tr = filter is_rate_check (trace st)" by simp
  with Some scan show ?thesis by (simp add: rescan_def)
qed

lemma buildIndex_limiter:
  "rate (buildIndex L d st) = rate st
   \<and> filter is_rate_check (trace (buildIndex L d st)) = filter is_rate_check (trace st)"
  by (simp add: buildIndex_def Let_def rescan_limiter split: option.splits parsed.splits)

lemma search_index_limiter:
  "rate (snd (search_index L d rq rem st)) = rate st
   \<and> filter is_rate_check (trace (snd (search_index L d rq rem st)))
       = filter is_rate_check (trace st)"
proof -
  define st1 where "st1 = (if \<not> is_set (GLOBAL_INDEX st) then buildIndex L d st else st)"
  have keep: "rate st1 = rate st
      \<and> filter is_rate_check (trace st1) = filter is_rate_check (trace st)"
    by (simp add: st1_def buildIndex_limiter)
  show ?thesis
  proof (cases "GLOBAL_INDEX st1")
    case None
    with keep show ?thesis by (simp add: search_index_def st1_def)
  next
    case (Some idx)
    obtain res tr where
      r: "resolve L d (group_matches (match_entries (query rq) idx) []) [] (trace st1) = (res, tr)"
      by (cases "resolve L d (group_matches (match_entries (query rq) idx) []) [] (trace st1)")
    from resolve_rate_checks [of L d "group_matches (match_entries (query rq) idx) []" "[]" "trace st1"] r
    have "filter is_rate_check tr = filter is_rate_check (trace st1)" by simp
    with Some r keep show ?thesis
      by (simp add: search_index_def st1_def [symmetric])
  qed
qed

lemma search_index_answer:
  "(is_set (GLOBAL_INDEX (snd (search_index L d rq rem st)))
      \<longrightarrow> remaining (fst (search_index L d rq rem st)) = Some rem
        \<and> isPremium (fst (search_index L d rq rem st)) = Some (isLoggedIn rq)
        \<and> error (fst (search_index L d rq rem st)) = None)
   \<and> (\<not> is_set (GLOBAL_INDEX (snd (search_index L d rq rem st)))
      \<longrightarrow> fst (search_index L d rq rem st)
          = \<lparr>results = [], error = None, remaining = None, isPremium = None\<rparr>)"
  by (auto simp: search_index_def Let_def split: option.splits prod.splits)

text \<open>
  C9, as the claim states it, fails: a logged-in caller whose call finds a build in
  flight (\<open>IS_INDEXING\<close> set, no index yet) is answered with an empty result list and
  neither \<open>remaining\<close> nor \<open>isPremium\<close>.
\<close>

theorem premium_during_build:
  "isLoggedIn premium_request
   \<and> 2 \<le> length (query premium_request)
   \<and> fst (searchCompanies example_lib counting_limiter (Some example_files) premium_request
        (building no_queries))
      = \<lparr>results = [], error = None, remaining = None, isPremium = None\<rparr>
   \<and> remaining (fst (searchCompanies example_lib counting_limiter (Some example_files)
        premium_request (building no_queries))) \<noteq> Some (- 1)
   \<and> isPremium (fst (searchCompanies example_lib counting_limiter (Some example_files)
        premium_request (building no_queries))) \<noteq> Some True"
  by (simp add: searchCompanies_def search_index_def buildIndex_def building_def
      premium_request_def)

text \<open>
  C9, amended. A call by a logged-in caller with a query of at least two characters
  makes no rate-limit check and leaves the store of the limiter as it was: the answer
  and the state do not depend on the limiter at all. When the index is set after the
  build step, \<open>remaining\<close> is \<open>-1\<close> and \<open>isPremium\<close> is true; when it is still unset,
  the answer is an empty result list without \<open>remaining\<close> and \<open>isPremium\<close>.
\<close>

theorem premium_bypasses_limiter:
  assumes "isLoggedIn rq" and "2 \<le> length (query rq)"
  shows "rate (snd (searchCompanies L checkRateLimit d rq st)) = rate st
    \<and> filter is_rate_check (trace (snd (searchCompanies L checkRateLimit d rq st)))
        = filter is_rate_check (trace st)
    \<and> searchCompanies L otherLimit d rq st = searchCompanies L checkRateLimit d rq st
    \<and> (is_set (GLOBAL_INDEX (snd (searchCompanies L checkRateLimit d rq st)))
        \<longrightarrow> remaining (fst (searchCompanies L checkRateLimit d rq st)) = Some (- 1)
          \<and> isPremium (fst (searchCompanies L checkRateLimit d rq st)) = Some True)
    \<and> (\<not> is_set (GLOBAL_INDEX (snd (searchCompanies L checkRateLimit d rq st)))
        \<longrightarrow> fst (searchCompanies L checkRateLimit d rq st)
            = \<lparr>results = [], error = None, remaining = None, isPremium = None\<rparr>)"
proof -
  from assms(2) have long: "query rq \<noteq> []" "\<not> length (query rq) < 2" by auto
  with assms(1) have call: "searchCompanies L lim d rq st = search_index L d rq (- 1) st" for lim
    by (simp add: searchCompanies_def)
  from search_index_limiter [of L d rq "- 1" st] search_index_answer [of L d rq "- 1" st] assms(1)
  show ?thesis
    unfolding call by simp
qed

lemma premium_search_example:
  "GLOBAL_INDEX (snd (searchCompanies example_lib counting_limiter (Some example_files)
      premium_request (fresh no_queries))) = Some companies_index"
  by code_simp

theorem premium_bypasses_limiter_witness:
  "isLoggedIn premium_request
   \<and> 2 \<le> length (query premium_request)
   \<and> remaining (fst (searchCompanies example_lib counting_limiter (Some example_files)
        premium_request (fresh no_queries))) = Some (- 1)
   \<and> isPremium (fst (searchCompanies example_lib counting_limiter (Some example_files)
        premium_request (fresh no_queries))) = Some True
   \<and> rate (snd (searchCompanies example_lib counting_limiter (Some example_files)
        premium_request (fresh no_queries))) = no_queries
   \<and> fst (searchCompanies example_lib counting_limiter (Some example_files)
        premium_request (building no_queries))
      = \<lparr>results = [], error = None, remaining = None, isPremium = None\<rparr>"
proof -
  have a: "isLoggedIn premium_request" by (simp add: premium_request_def)
  have b: "2 \<le> length (query premium_request)" by (simp add: premium_request_def)
  have c: "\<not> is_set (GLOBAL_INDEX (snd (searchCompanies example_lib counting_limiter
      (Some example_files) premium_request (building no_queries))))"
    by (simp add: searchCompanies_def search_index_def buildIndex_def building_def
        premium_request_def)
  have r: "rate (fresh no_queries) = no_queries"
    by (simp add: fresh_def)
  from premium_bypasses_limiter [OF a b, of example_lib counting_limiter "Some example_files"
      "fresh no_queries"]
    premium_bypasses_limiter [OF a b, of example_lib counting_limiter "Some example_files"
      "building no_queries"]
    a b c r
  show ?thesis
    by (simp add: premium_search_example)
qed


section \<open>Row offsets of the streaming backend\<close>

text \<open>
  Both passes over a delimited-text file are the concatenation, over the positions of
  the lines after the header, of what the loop body does for the line at that position
  with the counter equal to the position.
\<close>

lemma upt_0_Suc: "[0..<Suc m] = 0 # map Suc [0..<m]"
  by (simp add: upt_conv_Cons map_Suc_upt del: upt_Suc)

lemma csv_rows_single:
  "csv_rows fname hdr k [line] [] = [] \<or>
   (\<exists>e. csv_rows fname hdr k [line] [] = [e] \<and> e_i e = k)"
  by (simp add: Let_def)

lemma csv_rows_step:
  "csv_rows fname hdr k (line # rows) acc
     = csv_rows fname hdr (k + 1) rows (acc @ csv_rows fname hdr k [line] [])"
  by (simp add: Let_def)

lemma csv_rows_concat:
  "csv_rows fname hdr k rows acc
     = acc @ concat (map (\<lambda>j. csv_rows fname hdr (k + j) [rows ! j] []) [0..<length rows])"
proof (induction rows arbitrary: k acc)
  case Nil
  show ?case by simp
next
  case (Cons line rows)
  have "csv_rows fname hdr k (line # rows) acc
      = csv_rows fname hdr (k + 1) rows (acc @ csv_rows fname hdr k [line] [])"
    by (rule csv_rows_step)
  also have "\<dots> = (acc @ csv_rows fname hdr k [line] [])
      @ concat (map (\<lambda>j. csv_rows fname hdr (k + 1 + j) [rows ! j] []) [0..<length rows])"
    by (rule Cons.IH)
  also have "\<dots> = acc @ concat (map (\<lambda>j. csv_rows fname hdr (k + j) [(line # rows) ! j] [])
      [0..<length (line # rows)])"
    by (simp add: upt_0_Suc comp_def del: upt_Suc csv_rows.simps)
  finally show ?case .
qed

lemma csv_detail_rows_map:
  "csv_detail_rows fname indices header k rows res
     = res @ map (\<lambda>j. company_of fname (k + j) (csv_row header (parse_line (rows ! j))))
               (filter (\<lambda>j. k + j \<in> set indices) [0..<length rows])"
proof (induction rows arbitrary: k res)
  case Nil
  show ?case by simp
next
  case (Cons line rows)
  show ?case
    using Cons.IH [of "k + 1"]
    by (simp add: upt_0_Suc comp_def filter_map del: upt_Suc)
qed

lemma filter_eq_upt: "k < m \<Longrightarrow> filter (\<lambda>j. j = k) [0..<m] = [k]"
  by (induction m) (auto simp: less_Suc_eq)

text \<open>
  C6. A record that the streaming backend appends for a file carries as its offset the
  position, among all the lines after the header, of the line it was made from: the
  index of the file is the concatenation over all these positions, skipped lines
  included, of the records the loop body appends with the counter at that position.
  Detail resolution counts the same way, so resolving the offset of a record gives the
  result row made from that same line of the unchanged file.
\<close>

theorem csv_offsets_align:
  assumes "e \<in> set (csv_index fname (header # rows) [])"
  shows "e_i e < length rows
    \<and> csv_rows fname (header_cols (parse_line header)) (e_i e) [rows ! e_i e] [] = [e]
    \<and> csv_detail fname [e_i e] (header # rows) []
        = [company_of fname (e_i e) (csv_row (parse_line header) (parse_line (rows ! e_i e)))]
    \<and> csv_index fname (header # rows) []
        = concat (map (\<lambda>j. csv_rows fname (header_cols (parse_line header)) j [rows ! j] [])
            [0..<length rows])
    \<and> csv_detail fname indices (header # rows) []
        = map (\<lambda>j. company_of fname j (csv_row (parse_line header) (parse_line (rows ! j))))
            (filter (\<lambda>j. j \<in> set indices) [0..<length rows])"
proof -
  let ?hdr = "header_cols (parse_line header)"
  have idx: "csv_index fname (header # rows) []
      = concat (map (\<lambda>j. csv_rows fname ?hdr j [rows ! j] []) [0..<length rows])"
    using csv_rows_concat [of fname ?hdr 0 rows "[]"] by (simp add: csv_index_def)
  with assms obtain j where j: "j < length rows"
    and e: "e \<in> set (csv_rows fname ?hdr j [rows ! j] [])"
    by auto
  from csv_rows_single [of fname ?hdr j "rows ! j"] e
  have one: "csv_rows fname ?hdr j [rows ! j] [] = [e]" and off: "e_i e = j"
    by auto
  have detail: "csv_detail fname ixs (header # rows) []
      = map (\<lambda>j. company_of fname j (csv_row (parse_line header) (parse_line (rows ! j))))
          (filter (\<lambda>j. j \<in> set ixs) [0..<length rows])" for ixs
    using csv_detail_rows_map [of fname ixs "parse_line header" 0 rows "[]"]
    by (simp add: csv_detail_def)
  from j off have "csv_detail fname [e_i e] (header # rows) []
      = [company_of fname (e_i e) (csv_row (parse_line header) (parse_line (rows ! e_i e)))]"
    by (simp add: detail filter_eq_upt)
  with j off one idx detail [of indices] show ?thesis by simp
qed

text \<open>
  In the example file the second data line has no name: the record of the third line
  has offset 2, and resolving it gives the row of the third line.
\<close>

lemma companies_csv_index:
  "csv_index ''companies.csv'' (companies_header # companies_rows) [] = companies_index"
  by code_simp

lemma companies_csv_lines:
  "split_lines companies_csv [] = companies_header # companies_rows"
  by code_simp

lemma beta_name:
  "company_of ''companies.csv'' 2
     (csv_row (parse_line companies_header) (parse_line (companies_rows ! 2))) ''name''
   = Some (Some ''Beta LLC'')"
  by code_simp

theorem csv_offsets_align_witness:
  "companies_index ! 1 \<in> set (csv_index ''companies.csv'' (companies_header # companies_rows) [])
   \<and> e_i (companies_index ! 1) = 2
   \<and> length companies_rows = 3
   \<and> map (\<lambda>co. co ''name'')
        (csv_detail ''companies.csv'' [e_i (companies_index ! 1)]
           (companies_header # companies_rows) [])
      = [Some (Some ''Beta LLC'')]"
proof -
  have mem: "companies_index ! 1
      \<in> set (csv_index ''companies.csv'' (companies_header # companies_rows) [])"
    by (simp add: companies_csv_index) (simp add: companies_index_def)
  have off: "e_i (companies_index ! 1) = 2"
    by (simp add: companies_index_def)
  have len: "length companies_rows = 3"
    by (simp add: companies_rows_def)
  from csv_offsets_align [OF mem, of "[]"] mem off len show ?thesis
    by (simp add: beta_name)
qed

section \<open>The snapshot\<close>

lemma map_of_replace:
  "k \<in> fst ` set files \<Longrightarrow>
   map_of (map (\<lambda>(k', v'). if k' = k then (k', v) else (k', v')) files) k = Some v"
  by (induction files) auto

lemma map_of_write_file: "map_of (write_file k v files) k = Some v"
proof (cases "k \<in> fst ` set files")
  case True
  then show ?thesis by (simp add: write_file_def map_of_replace)
next
  case False
  then have "map_of files k = None" by (simp add: map_of_eq_None_iff)
  with False show ?thesis by (simp add: write_file_def map_add_def)
qed

lemma map_of_corpus:
  "map_of (filter (\<lambda>p. fst p \<noteq> k) files) k = None"
  by (simp add: map_of_eq_None_iff image_iff)

lemma script_scan_app_scan:
  "script_scan L files acc = Some idx \<Longrightarrow>
   fst (app_scan L (filter (\<lambda>p. fst p \<noteq> snapshot_name) files) acc tr) = idx"
proof (induction files arbitrary: acc tr)
  case Nil
  then show ?case by simp
next
  case (Cons p files)
  obtain fname content where p: "p = (fname, content)" by (cases p)
  show ?case
  proof (cases "fname = ''search-index.json''")
    case True
    with Cons.prems p have "script_scan L files acc = Some idx"
      by (simp split: if_splits)
    from Cons.IH [OF this] True p show ?thesis
      by (simp add: snapshot_name_def)
  next
    case other: False
    show ?thesis
    proof (cases "has_ext fname")
      case False
      with Cons.prems p have "script_scan L files acc = Some idx" by simp
      from Cons.IH [OF this] False other p show ?thesis
        by (simp add: snapshot_name_def)
    next
      case True
      show ?thesis
      proof (cases "endsWith fname ''.csv''")
        case csv: True
        with True other Cons.prems p obtain lines where r: "readline L content = Some lines"
          and "script_scan L files (csv_index fname lines acc) = Some idx"
          by (auto split: option.splits)
        from Cons.IH [OF this(2)] r csv True other p show ?thesis
          by (simp add: snapshot_name_def)
      next
        case sheet: False
        with True other Cons.prems p obtain data where r: "sheet_to_json L content = Some data"
          and "script_scan L files (batch_rows fname 0 data acc) = Some idx"
          by (auto split: option.splits)
        from Cons.IH [OF this(2)] r sheet True other p show ?thesis
          by (simp add: snapshot_name_def)
      qed
    qed
  qed
qed

lemma script_scan_skips_snapshot:
  "script_scan L (filter (\<lambda>p. fst p \<noteq> snapshot_name) files) acc = script_scan L files acc"
  by (induction L files acc rule: script_scan.induct)
    (auto simp: snapshot_name_def split: option.splits)

lemma corpus_write_file:
  "filter (\<lambda>p. fst p \<noteq> k) (write_file k v files) = filter (\<lambda>p. fst p \<noteq> k) files"
proof (cases "k \<in> fst ` set files")
  case True
  have "filter (\<lambda>p. fst p \<noteq> k) (map (\<lambda>(k', v'). if k' = k then (k', v) else (k', v')) files)
      = filter (\<lambda>p. fst p \<noteq> k) files"
    by (induction files) (auto split: if_splits)
  with True show ?thesis by (simp add: write_file_def)
next
  case False
  then show ?thesis by (simp add: write_file_def)
qed

lemma script_scan_write_file:
  "script_scan L (write_file snapshot_name v files) acc = script_scan L files acc"
  using script_scan_skips_snapshot [of L "write_file snapshot_name v files" acc]
    script_scan_skips_snapshot [of L files acc]
  by (simp add: corpus_write_file)

text \<open>
  C8. Let the script build the index of a directory and write the snapshot, and let
  \<open>JSON.parse\<close> give back the records that \<open>JSON.stringify\<close> was given. A process that
  starts on the directory with the snapshot loads exactly the records that a process
  obtains by scanning the directory without the snapshot, so the matches of every query
  are the same; the script run again on the directory with the snapshot builds the same
  records too.
\<close>

theorem snapshot_round_trip:
  assumes "script_buildIndex L (Some files) = (Written idx, d')"
    and "JSON_parse L (JSON_stringify L idx) = Value (Some idx)"
    and "\<not> is_set (GLOBAL_INDEX st)" and "\<not> IS_INDEXING st"
  shows "GLOBAL_INDEX (buildIndex L d' st) = Some idx
    \<and> GLOBAL_INDEX (buildIndex L (Some (filter (\<lambda>p. fst p \<noteq> snapshot_name) files)) st) = Some idx
    \<and> (\<forall>q. map_option (match_entries q) (GLOBAL_INDEX (buildIndex L d' st))
           = map_option (match_entries q)
               (GLOBAL_INDEX
                 (buildIndex L (Some (filter (\<lambda>p. fst p \<noteq> snapshot_name) files)) st)))
    \<and> fst (script_buildIndex L d') = Written idx"
proof -
  from assms(1) have scan: "script_scan L files [] = Some idx"
    and d': "d' = Some (write_file snapshot_name (JSON_stringify L idx) files)"
    by (auto simp: script_buildIndex_def split: option.splits)
  have "file_content d' snapshot_name = Some (JSON_stringify L idx)"
    by (simp add: d' file_content_def map_of_write_file)
  with assms(2-4) have loaded: "GLOBAL_INDEX (buildIndex L d' st) = Some idx"
    by (simp add: buildIndex_def)
  let ?corpus = "filter (\<lambda>p. fst p \<noteq> snapshot_name) files"
  have none: "file_content (Some ?corpus) snapshot_name = None"
    by (simp add: file_content_def map_of_corpus)
  obtain newIndex tr where
    a: "app_scan L ?corpus [] (trace st @ [SnapshotExists, DirExists, DirList]) = (newIndex, tr)"
    by (cases "app_scan L ?corpus [] (trace st @ [SnapshotExists, DirExists, DirList])")
  from script_scan_app_scan [OF scan, of "trace st @ [SnapshotExists, DirExists, DirList]"] a
  have "newIndex = idx" by simp
  with a none assms(3-4)
  have rescanned: "GLOBAL_INDEX (buildIndex L (Some ?corpus) st) = Some idx"
    by (simp add: buildIndex_def rescan_def)
  from scan have again: "fst (script_buildIndex L d') = Written idx"
    by (simp add: d' script_buildIndex_def script_scan_write_file)
  from loaded rescanned again show ?thesis by simp
qed

lemma example_script_build:
  "script_buildIndex example_lib (Some example_files)
     = (Written companies_index,
        Some (example_files @ [(''search-index.json'', json_array companies_index)]))"
  by code_simp

lemma example_json_round_trip:
  "JSON_parse example_lib (JSON_stringify example_lib companies_index)
     = Value (Some companies_index)"
  by (simp add: example_lib_def example_parse_def json_array_def)

theorem snapshot_round_trip_witness:
  "fst (script_buildIndex example_lib (Some example_files)) = Written companies_index
   \<and> JSON_parse example_lib (JSON_stringify example_lib companies_index)
       = Value (Some companies_index)
   \<and> \<not> is_set (GLOBAL_INDEX (fresh no_queries))
   \<and> \<not> IS_INDEXING (fresh no_queries)
   \<and> GLOBAL_INDEX (buildIndex example_lib
        (Some (example_files @ [(''search-index.json'', json_array companies_index)]))
        (fresh no_queries)) = Some companies_index
   \<and> GLOBAL_INDEX (buildIndex example_lib
        (Some (filter (\<lambda>p. fst p \<noteq> snapshot_name) example_files))
        (fresh no_queries)) = Some companies_index"
proof -
  have a: "\<not> is_set (GLOBAL_INDEX (fresh no_queries))"
    by (simp add: fresh_def)
  have b: "\<not> IS_INDEXING (fresh no_queries)"
    by (simp add: fresh_def)
  from snapshot_round_trip [OF example_script_build example_json_round_trip a b]
    example_json_round_trip a b
  show ?thesis
    by (simp add: example_script_build)
qed

end
